theory Spec2Isabelle
  imports Main
begin

section \<open>The Identity store\<close>

text \<open>
  The server keeps its users in a MongoDB collection, reached through the Mongoose model
  \<^verbatim>\<open>User\<close>. A document is a record. A key (\<open>steamId\<close>, \<open>discordId\<close>) that the
  document does not have is \<open>None\<close>; the callbacks never store \<^verbatim>\<open>null\<close> in a key. A
  profile field is \<open>None\<close> when the document does not have it or when it holds
  \<^verbatim>\<open>null\<close>. The collection is the list of its documents in natural (insertion) order.
  Times are milliseconds since the epoch.
\<close>

type_synonym time = nat

record user =
  oid :: nat
  steamId :: "string option"
  steamName :: "string option"
  steamAvatar :: "string option"
  steamProfileUrl :: "string option"
  discordId :: "string option"
  discordName :: "string option"
  discordAvatar :: "string option"
  discordEmail :: "string option"
  isFullyAuthenticated :: bool
  lastLogin :: time
  createdAt :: time

text \<open>The field \<open>oid\<close> is the document's \<^verbatim>\<open>_id\<close>.\<close>

type_synonym store = "user list"

text \<open>
  Any call to the persistence layer may reject. The error it rejects with is an opaque
  value to the server, which only passes it on.
\<close>

datatype error = PersistenceError string

text \<open>
  What the persistence layer does is not decided by the server, so it is a parameter of
  every callback: the list of outcomes of the callback's database calls, in the order in
  which they are made. \<open>Some e\<close> makes the call reject with \<open>e\<close>; \<open>None\<close>, and every
  call past the end of the list, succeeds.
\<close>

type_synonym faults = "error option list"

definition db_call :: "faults \<Rightarrow> 'a \<Rightarrow> (error + 'a) \<times> faults" where
  "db_call fs r =
     (case fs of
        [] \<Rightarrow> (Inr r, [])
      | None # fs' \<Rightarrow> (Inr r, fs')
      | Some e # fs' \<Rightarrow> (Inl e, fs'))"

text \<open>\<^verbatim>\<open>User.findOne(q)\<close>: the first document in natural order that matches.\<close>

definition findOne :: "faults \<Rightarrow> (user \<Rightarrow> bool) \<Rightarrow> store \<Rightarrow> (error + user option) \<times> faults" where
  "findOne fs q db = db_call fs (find q db)"

text \<open>
  \<^verbatim>\<open>User.findOne(q).sort({ createdAt: -1 })\<close>: the matching documents are ordered by
  descending \<open>createdAt\<close> and the first one is returned. MongoDB leaves the order of
  documents with equal keys open; the model keeps them in natural order.
\<close>

fun insert_desc :: "user \<Rightarrow> user list \<Rightarrow> user list" where
  "insert_desc u [] = [u]"
| "insert_desc u (v # vs) =
     (if createdAt v \<le> createdAt u then u # v # vs else v # insert_desc u vs)"

definition sort_createdAt_desc :: "user list \<Rightarrow> user list" where
  "sort_createdAt_desc us = foldr insert_desc us []"

definition first_doc :: "user list \<Rightarrow> user option" where
  "first_doc us = (case us of [] \<Rightarrow> None | u # _ \<Rightarrow> Some u)"

definition findOne_sorted ::
  "faults \<Rightarrow> (user \<Rightarrow> bool) \<Rightarrow> store \<Rightarrow> (error + user option) \<times> faults" where
  "findOne_sorted fs q db = db_call fs (first_doc (sort_createdAt_desc (filter q db)))"

text \<open>\<^verbatim>\<open>User.findById(id)\<close>.\<close>

definition findById :: "faults \<Rightarrow> nat \<Rightarrow> store \<Rightarrow> (error + user option) \<times> faults" where
  "findById fs i db = db_call fs (find (\<lambda>u. oid u = i) db)"

text \<open>
  \<^verbatim>\<open>user.save()\<close> inserts a document made by \<^verbatim>\<open>new User(...)\<close> and, for a document
  that was loaded from the collection, writes it back over the document with its
  \<^verbatim>\<open>_id\<close>.
\<close>

definition save_new :: "faults \<Rightarrow> user \<Rightarrow> store \<Rightarrow> (error + store) \<times> faults" where
  "save_new fs u db = db_call fs (db @ [u])"

definition replace_doc :: "user \<Rightarrow> store \<Rightarrow> store" where
  "replace_doc u db = map (\<lambda>v. if oid v = oid u then u else v) db"

definition save_loaded :: "faults \<Rightarrow> user \<Rightarrow> store \<Rightarrow> (error + store) \<times> faults" where
  "save_loaded fs u db = db_call fs (replace_doc u db)"

text \<open>A new document gets an \<^verbatim>\<open>_id\<close> that no document of the collection has.\<close>

definition fresh_oid :: "store \<Rightarrow> nat" where
  "fresh_oid db = Suc (foldr max (map oid db) 0)"

text \<open>
  Modelled from the spec: the schema \<^verbatim>\<open>./models/User\<close> is required by the server but
  is not among the source files. An Identity has the two optional keys \<open>steamId\<close> and
  \<open>discordId\<close>, the profile fields of each provider, \<open>isFullyAuthenticated\<close> (false
  for a document with a single key), \<open>lastLogin\<close> and \<open>createdAt\<close> (set at creation).
  The fields that the constructor call does not name are unset. The \<open>lastLogin\<close> of a
  new document is taken to be its creation time.
\<close>

definition new_User :: "time \<Rightarrow> store \<Rightarrow> user" where
  "new_User now db =
     \<lparr>oid = fresh_oid db,
      steamId = None, steamName = None, steamAvatar = None, steamProfileUrl = None,
      discordId = None, discordName = None, discordAvatar = None, discordEmail = None,
      isFullyAuthenticated = False, lastLogin = now, createdAt = now\<rparr>"

section \<open>The authentication callbacks\<close>

text \<open>
  The profile that passport-steam hands to the verify callback: \<^verbatim>\<open>profile.id\<close>,
  \<^verbatim>\<open>profile.displayName\<close>, the \<^verbatim>\<open>value\<close>s of \<^verbatim>\<open>profile.photos\<close> and
  \<^verbatim>\<open>profile._json.profileurl\<close>.
\<close>

record steam_profile =
  sp_id :: string
  sp_displayName :: string
  sp_photos :: "string list"
  sp_profileurl :: string

text \<open>The profile of passport-discord; \<^verbatim>\<open>avatar\<close> and \<^verbatim>\<open>email\<close> may be null.\<close>

record discord_profile =
  dp_id :: string
  dp_username :: string
  dp_discriminator :: string
  dp_avatar :: "string option"
  dp_email :: "string option"

text \<open>
  A callback ends by calling \<^verbatim>\<open>done(err, user)\<close>; its result is the pair of the two
  arguments (\<open>None\<close> is \<^verbatim>\<open>null\<close>) together with the collection it leaves.
\<close>

type_synonym done_args = "error option \<times> user option"

text \<open>\<^verbatim>\<open>profile.photos[0]?.value || null\<close>: the empty string is falsy.\<close>

definition steam_avatar_of :: "steam_profile \<Rightarrow> string option" where
  "steam_avatar_of profile =
     (case sp_photos profile of
        [] \<Rightarrow> None
      | v # _ \<Rightarrow> (if v = [] then None else Some v))"

text \<open>\<^verbatim>\<open>`${profile.username}#${profile.discriminator}`\<close>\<close>

definition discord_name_of :: "discord_profile \<Rightarrow> string" where
  "discord_name_of profile = dp_username profile @ ''#'' @ dp_discriminator profile"

text \<open>The truth value JavaScript gives to a key: unset and the empty string are falsy.\<close>

definition truthy :: "string option \<Rightarrow> bool" where
  "truthy k = (case k of None \<Rightarrow> False | Some s \<Rightarrow> s \<noteq> [])"

text \<open>
  The verify callback of the Steam strategy. \<open>steam_created\<close> is the document of its
  \<^verbatim>\<open>new User({...})\<close>, \<open>steam_refreshed\<close> the loaded document after the assignments
  of the \<^verbatim>\<open>else\<close> branch.
\<close>

definition steam_created :: "time \<Rightarrow> steam_profile \<Rightarrow> store \<Rightarrow> user" where
  "steam_created now profile db =
     (new_User now db)
       \<lparr>steamId := Some (sp_id profile),
        steamName := Some (sp_displayName profile),
        steamAvatar := steam_avatar_of profile,
        steamProfileUrl := Some (sp_profileurl profile)\<rparr>"

definition steam_refreshed :: "time \<Rightarrow> steam_profile \<Rightarrow> user \<Rightarrow> user" where
  "steam_refreshed now profile u =
     u\<lparr>steamName := Some (sp_displayName profile),
       steamAvatar := steam_avatar_of profile,
       lastLogin := now\<rparr>"

definition steam_verify ::
  "faults \<Rightarrow> time \<Rightarrow> steam_profile \<Rightarrow> store \<Rightarrow> done_args \<times> store" where
  "steam_verify fs now profile db =
     (case findOne fs (\<lambda>u. steamId u = Some (sp_id profile)) db of
        (Inl e, _) \<Rightarrow> ((Some e, None), db)
      | (Inr None, fs1) \<Rightarrow>
          (let user = steam_created now profile db
           in case save_new fs1 user db of
                (Inl e, _) \<Rightarrow> ((Some e, None), db)
              | (Inr db', _) \<Rightarrow> ((None, Some user), db'))
      | (Inr (Some u), fs1) \<Rightarrow>
          (let user = steam_refreshed now profile u
           in case save_loaded fs1 user db of
                (Inl e, _) \<Rightarrow> ((Some e, None), db)
              | (Inr db', _) \<Rightarrow> ((None, Some user), db')))"

text \<open>
  The query for the merge candidate:
  \<^verbatim>\<open>{ $and: [{ steamId: { $exists: true } }, { discordId: { $exists: false } }] }\<close>.
\<close>

definition steam_only :: "user \<Rightarrow> bool" where
  "steam_only u = (steamId u \<noteq> None \<and> discordId u = None)"

text \<open>What that query, sorted by descending \<open>createdAt\<close>, resolves to.\<close>

definition merge_candidate :: "store \<Rightarrow> user option" where
  "merge_candidate db = first_doc (sort_createdAt_desc (filter steam_only db))"

text \<open>
  The verify callback of the Discord strategy. \<open>discord_merged\<close> is the merge candidate
  after the assignments of the \<^verbatim>\<open>if (user)\<close> branch, \<open>discord_created\<close> the
  document of \<^verbatim>\<open>new User({...})\<close>, and \<open>discord_refreshed\<close> the document found by
  \<open>discordId\<close> after the assignments of the outer \<^verbatim>\<open>else\<close> branch.
\<close>

definition discord_merged :: "discord_profile \<Rightarrow> user \<Rightarrow> user" where
  "discord_merged profile u =
     u\<lparr>discordId := Some (dp_id profile),
       discordName := Some (discord_name_of profile),
       discordAvatar := dp_avatar profile,
       discordEmail := dp_email profile,
       isFullyAuthenticated := True\<rparr>"

definition discord_created :: "time \<Rightarrow> discord_profile \<Rightarrow> store \<Rightarrow> user" where
  "discord_created now profile db =
     (new_User now db)
       \<lparr>discordId := Some (dp_id profile),
        discordName := Some (discord_name_of profile),
        discordAvatar := dp_avatar profile,
        discordEmail := dp_email profile\<rparr>"

definition discord_refreshed :: "time \<Rightarrow> discord_profile \<Rightarrow> user \<Rightarrow> user" where
  "discord_refreshed now profile u =
     (let user = u
            \<lparr>discordName := Some (discord_name_of profile),
             discordAvatar := dp_avatar profile,
             discordEmail := dp_email profile,
             lastLogin := now\<rparr>
      in if truthy (steamId user) \<and> truthy (discordId user)
         then user\<lparr>isFullyAuthenticated := True\<rparr> else user)"

definition discord_verify ::
  "faults \<Rightarrow> time \<Rightarrow> discord_profile \<Rightarrow> store \<Rightarrow> done_args \<times> store" where
  "discord_verify fs now profile db =
     (case findOne fs (\<lambda>u. discordId u = Some (dp_id profile)) db of
        (Inl e, _) \<Rightarrow> ((Some e, None), db)
      | (Inr None, fs1) \<Rightarrow>
          (case findOne_sorted fs1 steam_only db of
             (Inl e, _) \<Rightarrow> ((Some e, None), db)
           | (Inr (Some u), fs2) \<Rightarrow>
               (let user = discord_merged profile u
                in case save_loaded fs2 user db of
                     (Inl e, _) \<Rightarrow> ((Some e, None), db)
                   | (Inr db', _) \<Rightarrow> ((None, Some user), db'))
           | (Inr None, fs2) \<Rightarrow>
               (let user = discord_created now profile db
                in case save_new fs2 user db of
                     (Inl e, _) \<Rightarrow> ((Some e, None), db)
                   | (Inr db', _) \<Rightarrow> ((None, Some user), db')))
      | (Inr (Some u), fs1) \<Rightarrow>
          (let user = discord_refreshed now profile u
           in case save_loaded fs1 user db of
                (Inl e, _) \<Rightarrow> ((Some e, None), db)
              | (Inr db', _) \<Rightarrow> ((None, Some user), db')))"

section \<open>Sessions\<close>

text \<open>\<^verbatim>\<open>passport.serializeUser\<close>: \<^verbatim>\<open>done(null, user._id)\<close>.\<close>

definition serializeUser :: "user \<Rightarrow> error option \<times> nat" where
  "serializeUser u = (None, oid u)"

text \<open>
  \<^verbatim>\<open>passport.deserializeUser\<close>: \<^verbatim>\<open>done(null, user)\<close> with what \<^verbatim>\<open>findById\<close>
  resolved to, which is \<^verbatim>\<open>null\<close> when no document has the identifier, and
  \<^verbatim>\<open>done(error, null)\<close> when the lookup rejects.
\<close>

definition deserializeUser :: "faults \<Rightarrow> nat \<Rightarrow> store \<Rightarrow> done_args" where
  "deserializeUser fs i db =
     (case findById fs i db of
        (Inl e, _) \<Rightarrow> (Some e, None)
      | (Inr u, _) \<Rightarrow> (None, u))"

text \<open>
  What a request carries after the session middleware of Passport has run. Without an
  identifier in the session \<^verbatim>\<open>req.user\<close> stays undefined. With one, Passport calls
  \<open>deserializeUser\<close>: an error fails the request, a falsy user leaves \<^verbatim>\<open>req.user\<close>
  undefined, any other user becomes \<^verbatim>\<open>req.user\<close>.
\<close>

definition session_user :: "faults \<Rightarrow> nat option \<Rightarrow> store \<Rightarrow> error + user option" where
  "session_user fs sess db =
     (case sess of
        None \<Rightarrow> Inr None
      | Some i \<Rightarrow>
          (case deserializeUser fs i db of
             (Some e, _) \<Rightarrow> Inl e
           | (None, u) \<Rightarrow> Inr u))"

text \<open>The handler of \<^verbatim>\<open>GET /api/user\<close>, given \<^verbatim>\<open>req.user\<close>.\<close>

record user_view =
  view_id :: nat
  view_steamId :: "string option"
  view_steamName :: "string option"
  view_isFullyAuthenticated :: bool

datatype response = Json_error nat string | Json_user user_view

definition api_user :: "user option \<Rightarrow> response" where
  "api_user req_user =
     (case req_user of
        None \<Rightarrow> Json_error 401 ''Not authenticated''
      | Some u \<Rightarrow>
          Json_user \<lparr>view_id = oid u, view_steamId = steamId u,
                     view_steamName = steamName u,
                     view_isFullyAuthenticated = isFullyAuthenticated u\<rparr>)"

section \<open>Sequences of authentications\<close>

datatype auth_op =
    SteamLogin faults time steam_profile
  | DiscordLogin faults time discord_profile

fun apply_op :: "auth_op \<Rightarrow> store \<Rightarrow> store" where
  "apply_op (SteamLogin fs now profile) db = snd (steam_verify fs now profile db)"
| "apply_op (DiscordLogin fs now profile) db = snd (discord_verify fs now profile db)"

definition run :: "auth_op list \<Rightarrow> store \<Rightarrow> store" where
  "run ops db = fold apply_op ops db"

section \<open>Notions used in the statements\<close>

text \<open>
  The error that the persistence layer raises in a callback that makes \<open>n\<close> database
  calls: the first rejection among the first \<open>n\<close> outcomes, if there is one.
\<close>

definition raised :: "nat \<Rightarrow> faults \<Rightarrow> error option" where
  "raised n fs = (case filter (\<lambda>f. f \<noteq> None) (take n fs) of [] \<Rightarrow> None | f # _ \<Rightarrow> f)"

text \<open>
  The Steam callback makes two database calls, a lookup and a save. The Discord callback
  makes two when the lookup by \<open>discordId\<close> finds a document and three, with the query
  for the merge candidate between them, when it does not.
\<close>

definition steam_calls :: nat where
  "steam_calls = 2"

definition discord_calls :: "discord_profile \<Rightarrow> store \<Rightarrow> nat" where
  "discord_calls profile db =
     (if find (\<lambda>u. discordId u = Some (dp_id profile)) db = None then 3 else 2)"

text \<open>An Identity is consistent when its flag says whether both keys are set.\<close>

definition consistent :: "user \<Rightarrow> bool" where
  "consistent u = (isFullyAuthenticated u = (steamId u \<noteq> None \<and> discordId u \<noteq> None))"

text \<open>A list whose first document is at least as recent as every other one.\<close>

definition newest_first :: "user list \<Rightarrow> bool" where
  "newest_first us = (case us of [] \<Rightarrow> True | u # vs \<Rightarrow> \<forall>v\<in>set vs. createdAt v \<le> createdAt u)"

text \<open>The profiles and collections of the worked examples.\<close>

definition alice_steam :: steam_profile where
  "alice_steam =
     \<lparr>sp_id = ''S1'', sp_displayName = ''alice'', sp_photos = [''a.jpg'', ''a_full.jpg''],
      sp_profileurl = ''id/alice''\<rparr>"

definition alice_steam_later :: steam_profile where
  "alice_steam_later =
     \<lparr>sp_id = ''S1'', sp_displayName = ''alice2'', sp_photos = [''a2.jpg''],
      sp_profileurl = ''id/alice2''\<rparr>"

definition bob_steam :: steam_profile where
  "bob_steam =
     \<lparr>sp_id = ''S2'', sp_displayName = ''bob'', sp_photos = [],
      sp_profileurl = ''id/bob''\<rparr>"

definition alice_discord :: discord_profile where
  "alice_discord =
     \<lparr>dp_id = ''D1'', dp_username = ''alice'', dp_discriminator = ''0001'',
      dp_avatar = Some ''f00d'', dp_email = Some ''a@x.org''\<rparr>"

definition carol_discord :: discord_profile where
  "carol_discord =
     \<lparr>dp_id = ''D2'', dp_username = ''carol'', dp_discriminator = ''0002'',
      dp_avatar = None, dp_email = None\<rparr>"

definition user_A :: user where
  "user_A = steam_created 1000 alice_steam []"

definition user_B :: user where
  "user_B = steam_created 2000 bob_steam [user_A]"

definition user_A_linked :: user where
  "user_A_linked = discord_merged alice_discord user_A"

definition user_C :: user where
  "user_C = discord_created 4000 carol_discord [user_A_linked]"

definition three_logins :: "auth_op list" where
  "three_logins =
     [SteamLogin [] 1000 alice_steam,
      DiscordLogin [] 3000 alice_discord,
      DiscordLogin [] 4000 carol_discord]"

definition later_logins :: "auth_op list" where
  "later_logins =
     [SteamLogin [] 6000 bob_steam,
      SteamLogin [] 7000 alice_steam_later]"

section \<open>Basic facts\<close>

lemma raised_Nil: "raised n [] = None"
  by (simp add: raised_def)

lemma raised_0: "raised 0 fs = None"
  by (simp add: raised_def)

lemma raised_Cons:
  "raised n (f # fs) =
     (if n = 0 then None else case f of Some e \<Rightarrow> Some e | None \<Rightarrow> raised (n - 1) fs)"
  by (cases n; cases f; simp add: raised_def)

lemma raised_in_set: "raised n fs = Some e \<Longrightarrow> Some e \<in> set fs"
  by (induction fs arbitrary: n) (auto simp: raised_Nil raised_Cons split: if_splits option.splits)

text \<open>
  A callback looks at no more than the first three outcomes, so seven shapes of the
  list of outcomes cover every run.
\<close>

lemma faults_shape:
  obtains "fs = []"
  | e fs' where "fs = Some e # fs'"
  | "fs = [None]"
  | e fs' where "fs = None # Some e # fs'"
  | "fs = [None, None]"
  | e fs' where "fs = None # None # Some e # fs'"
  | fs' where "fs = None # None # None # fs'"
proof (cases fs)
  case Nil then show ?thesis using that by blast
next
  case c1: (Cons f1 fs1)
  show ?thesis
  proof (cases f1)
    case (Some e) with c1 show ?thesis using that by blast
  next
    case n1: None
    show ?thesis
    proof (cases fs1)
      case Nil with c1 n1 show ?thesis using that by blast
    next
      case c2: (Cons f2 fs2)
      show ?thesis
      proof (cases f2)
        case (Some e) with c1 n1 c2 show ?thesis using that by blast
      next
        case n2: None
        show ?thesis
        proof (cases fs2)
          case Nil with c1 n1 c2 n2 show ?thesis using that by blast
        next
          case c3: (Cons f3 fs3)
          with c1 n1 c2 n2 show ?thesis using that by (cases f3) blast+
        qed
      qed
    qed
  qed
qed

lemmas db_defs = findOne_def findOne_sorted_def save_new_def save_loaded_def db_call_def

text \<open>Each callback as one equation: the error raised, or the branch taken.\<close>

lemma steam_verify_eq:
  "steam_verify fs now p db =
     (case raised steam_calls fs of
        Some e \<Rightarrow> ((Some e, None), db)
      | None \<Rightarrow>
         (case find (\<lambda>u. steamId u = Some (sp_id p)) db of
            None \<Rightarrow> ((None, Some (steam_created now p db)), db @ [steam_created now p db])
          | Some u \<Rightarrow> ((None, Some (steam_refreshed now p u)), replace_doc (steam_refreshed now p u) db)))"
  by (cases fs rule: faults_shape)
     (simp_all add: steam_verify_def db_defs steam_calls_def raised_Nil raised_0 raised_Cons Let_def
        split: option.splits)

lemma discord_verify_eq:
  "discord_verify fs now p db =
     (case raised (discord_calls p db) fs of
        Some e \<Rightarrow> ((Some e, None), db)
      | None \<Rightarrow>
         (case find (\<lambda>u. discordId u = Some (dp_id p)) db of
            Some u \<Rightarrow> ((None, Some (discord_refreshed now p u)), replace_doc (discord_refreshed now p u) db)
          | None \<Rightarrow>
             (case merge_candidate db of
                Some c \<Rightarrow> ((None, Some (discord_merged p c)), replace_doc (discord_merged p c) db)
              | None \<Rightarrow> ((None, Some (discord_created now p db)), db @ [discord_created now p db]))))"
  by (cases fs rule: faults_shape)
     (simp_all add: discord_verify_def db_defs discord_calls_def merge_candidate_def
        raised_Nil raised_0 raised_Cons Let_def split: option.splits)

subsection \<open>The sorted query\<close>

lemma set_insert_desc: "set (insert_desc u vs) = insert u (set vs)"
  by (induction vs) auto

lemma set_sort_createdAt_desc: "set (sort_createdAt_desc us) = set us"
  by (induction us) (simp_all add: sort_createdAt_desc_def set_insert_desc)

lemma newest_first_insert_desc: "newest_first vs \<Longrightarrow> newest_first (insert_desc u vs)"
  by (cases vs) (auto simp: newest_first_def set_insert_desc)

lemma newest_first_sort: "newest_first (sort_createdAt_desc us)"
proof (induction us)
  case Nil
  show ?case by (simp add: sort_createdAt_desc_def newest_first_def)
next
  case (Cons u us)
  then show ?case
    using newest_first_insert_desc[of "sort_createdAt_desc us" u]
    by (simp add: sort_createdAt_desc_def)
qed

lemma first_doc_None: "first_doc us = None \<longleftrightarrow> us = []"
  by (cases us) (simp_all add: first_doc_def)

lemma first_doc_Some: "first_doc us = Some u \<Longrightarrow> \<exists>vs. us = u # vs"
  by (cases us) (simp_all add: first_doc_def)

lemma merge_candidate_None: "merge_candidate db = None \<longleftrightarrow> (\<forall>u\<in>set db. \<not> steam_only u)"
proof -
  have "merge_candidate db = None \<longleftrightarrow> set (sort_createdAt_desc (filter steam_only db)) = {}"
    by (simp add: merge_candidate_def first_doc_None)
  then show ?thesis
    by (auto simp: set_sort_createdAt_desc)
qed

lemma merge_candidate_Some:
  assumes "merge_candidate db = Some c"
  shows "c \<in> set db" and "steam_only c"
    and "\<And>u. u \<in> set db \<Longrightarrow> steam_only u \<Longrightarrow> createdAt u \<le> createdAt c"
proof -
  let ?s = "sort_createdAt_desc (filter steam_only db)"
  from assms obtain vs where s: "?s = c # vs"
    unfolding merge_candidate_def by (blast dest: first_doc_Some)
  have "c \<in> set ?s" using s by simp
  then have c: "c \<in> set (filter steam_only db)" by (simp only: set_sort_createdAt_desc)
  from c show "c \<in> set db" by simp
  from c show "steam_only c" by simp
  fix u assume "u \<in> set db" "steam_only u"
  then have "u \<in> set ?s" by (simp add: set_sort_createdAt_desc)
  then have "u = c \<or> u \<in> set vs" using s by simp
  moreover have "\<forall>v\<in>set vs. createdAt v \<le> createdAt c"
    using newest_first_sort[of "filter steam_only db"] s by (simp add: newest_first_def)
  ultimately show "createdAt u \<le> createdAt c" by auto
qed

subsection \<open>Documents and the collection\<close>

lemma fresh_oid_gt: "u \<in> set db \<Longrightarrow> oid u < fresh_oid db"
  unfolding fresh_oid_def by (induction db) auto

lemma length_replace_doc: "length (replace_doc u db) = length db"
  by (simp add: replace_doc_def)

lemma nth_replace_doc:
  "i < length db \<Longrightarrow> replace_doc u db ! i = (if oid (db ! i) = oid u then u else db ! i)"
  by (simp add: replace_doc_def)

lemma map_oid_replace_doc: "map oid (replace_doc u db) = map oid db"
  by (simp add: replace_doc_def)

lemma set_replace_doc:
  "v \<in> set db \<Longrightarrow> oid v = oid u \<Longrightarrow> u \<in> set (replace_doc u db)"
  by (force simp: replace_doc_def)

lemma in_replace_doc:
  "w \<in> set (replace_doc u db) \<Longrightarrow> w = u \<or> (w \<in> set db \<and> oid w \<noteq> oid u)"
  by (auto simp: replace_doc_def split: if_splits)

lemma find_SomeD: "find P xs = Some x \<Longrightarrow> x \<in> set xs \<and> P x"
  by (induction xs) (auto split: if_splits)

lemma find_None: "find P xs = None \<longleftrightarrow> (\<forall>x\<in>set xs. \<not> P x)"
  by (induction xs) auto

lemmas example_defs = alice_steam_def alice_steam_later_def bob_steam_def alice_discord_def
  carol_discord_def user_A_def user_B_def

lemmas doc_defs = steam_created_def steam_refreshed_def discord_merged_def discord_created_def
  discord_refreshed_def new_User_def fresh_oid_def steam_avatar_of_def discord_name_of_def
  truthy_def steam_only_def

lemma raised_none_examples:
  "raised steam_calls [] = None" "raised steam_calls [None, None] = None"
  "raised (discord_calls p db) [] = None" "raised (discord_calls p db) [None, None, None] = None"
  by (simp_all add: steam_calls_def discord_calls_def raised_Cons raised_Nil raised_0)

lemma user_A_fields:
  "oid user_A = 1" "steamId user_A = Some ''S1'' " "discordId user_A = None"
  "\<not> isFullyAuthenticated user_A" "createdAt user_A = 1000" "lastLogin user_A = 1000"
  "steamProfileUrl user_A = Some ''id/alice''"
  by (simp_all add: example_defs doc_defs)

lemma user_B_fields:
  "oid user_B = 2" "steamId user_B = Some ''S2'' " "discordId user_B = None"
  "\<not> isFullyAuthenticated user_B" "createdAt user_B = 2000" "steamAvatar user_B = None"
  by (simp_all add: example_defs doc_defs)

section \<open>Steam authentication\<close>

text \<open>
  Claim C9. A Steam authentication whose external id is the \<open>steamId\<close> of no Identity,
  and during which the persistence layer raises no error, creates exactly one new
  Identity: the collection grows by the one document \<open>new\<close> that the callback hands
  to \<^verbatim>\<open>done\<close>. That document has \<open>steamId\<close> set to the external id and the Steam
  profile fields populated from the payload: \<open>steamName\<close> is the display name,
  \<open>steamProfileUrl\<close> the profile URL, and \<open>steamAvatar\<close> the value of the first
  photo, or null when the payload has no photo or the value is the empty string. It has
  no \<open>discordId\<close>, \<open>isFullyAuthenticated\<close> false, and an \<^verbatim>\<open>_id\<close> that no other
  document has.
\<close>

theorem steam_login_unseen_creates_identity:
  assumes "\<forall>u\<in>set db. steamId u \<noteq> Some (sp_id p)"
    and "raised steam_calls fs = None"
    and "new = steam_created now p db"
  shows "steam_verify fs now p db = ((None, Some new), db @ [new])
           \<and> steamId new = Some (sp_id p)
           \<and> steamName new = Some (sp_displayName p)
           \<and> steamAvatar new =
               (case sp_photos p of
                  [] \<Rightarrow> None
                | v # _ \<Rightarrow> (if v = [] then None else Some v))
           \<and> steamProfileUrl new = Some (sp_profileurl p)
           \<and> discordId new = None
           \<and> \<not> isFullyAuthenticated new
           \<and> createdAt new = now
           \<and> (\<forall>v\<in>set db. oid v \<noteq> oid new)"
proof -
  from assms(1) have "find (\<lambda>u. steamId u = Some (sp_id p)) db = None"
    by (simp add: find_None)
  with assms(2,3) have "steam_verify fs now p db = ((None, Some new), db @ [new])"
    by (simp add: steam_verify_eq)
  moreover have "\<forall>v\<in>set db. oid v \<noteq> oid new"
    using fresh_oid_gt[of _ db] assms(3) by (fastforce simp: steam_created_def new_User_def)
  ultimately show ?thesis
    using assms(3) by (simp add: steam_created_def new_User_def steam_avatar_of_def)
qed

theorem steam_login_unseen_creates_identity_witness:
  "steamId user_A \<noteq> Some (sp_id bob_steam)
   \<and> steam_verify [None, None] 2000 bob_steam [user_A] = ((None, Some user_B), [user_A, user_B])
   \<and> steamId user_B = Some ''S2''
   \<and> steamName user_B = Some ''bob''
   \<and> steamAvatar user_B = None
   \<and> steamProfileUrl user_B = Some ''id/bob''
   \<and> discordId user_B = None
   \<and> \<not> isFullyAuthenticated user_B
   \<and> oid user_A \<noteq> oid user_B
   \<and> steamId user_C \<noteq> Some (sp_id alice_steam)
   \<and> steam_verify [] 5000 alice_steam [user_C] =
       ((None, Some (steam_created 5000 alice_steam [user_C])),
        [user_C, steam_created 5000 alice_steam [user_C]])
   \<and> steamId (steam_created 5000 alice_steam [user_C]) = Some ''S1''
   \<and> steamName (steam_created 5000 alice_steam [user_C]) = Some ''alice''
   \<and> steamAvatar (steam_created 5000 alice_steam [user_C]) = Some ''a.jpg''
   \<and> steamProfileUrl (steam_created 5000 alice_steam [user_C]) = Some ''id/alice''
   \<and> \<not> isFullyAuthenticated (steam_created 5000 alice_steam [user_C])"
proof -
  have h1: "\<forall>u\<in>set [user_A]. steamId u \<noteq> Some (sp_id bob_steam)"
    by (simp add: user_A_fields bob_steam_def)
  have c: "steamId user_C = None"
    by (simp add: user_C_def discord_created_def new_User_def)
  then have h2: "\<forall>u\<in>set [user_C]. steamId u \<noteq> Some (sp_id alice_steam)"
    by simp
  from steam_login_unseen_creates_identity[OF h1 raised_none_examples(2) user_B_def]
    steam_login_unseen_creates_identity[OF h2 raised_none_examples(1) refl, of 5000] h1 c
  show ?thesis
    by (simp add: bob_steam_def alice_steam_def)
qed

text \<open>
  Claim C4. A Steam authentication whose external id is the \<open>steamId\<close> of an Identity
  \<open>u\<close> (the one the lookup resolves to), and during which the persistence layer raises
  no error, creates no record: the collection keeps its length, \<open>u\<close> is replaced by
  a document with the same \<^verbatim>\<open>_id\<close> whose \<open>lastLogin\<close> is the current time and whose
  \<open>discordId\<close> and \<open>isFullyAuthenticated\<close> are those of \<open>u\<close>, and every document
  with another \<^verbatim>\<open>_id\<close> is left as it was.
\<close>

theorem steam_login_known_updates_in_place:
  assumes "find (\<lambda>v. steamId v = Some (sp_id p)) db = Some u"
    and "raised steam_calls fs = None"
    and "u' = steam_refreshed now p u"
  shows "steam_verify fs now p db = ((None, Some u'), replace_doc u' db)
           \<and> length (replace_doc u' db) = length db
           \<and> oid u' = oid u
           \<and> lastLogin u' = now
           \<and> discordId u' = discordId u
           \<and> isFullyAuthenticated u' = isFullyAuthenticated u
           \<and> u' \<in> set (replace_doc u' db)
           \<and> (\<forall>i<length db. replace_doc u' db ! i = (if oid (db ! i) = oid u then u' else db ! i))"
proof -
  from assms have "steam_verify fs now p db = ((None, Some u'), replace_doc u' db)"
    by (simp add: steam_verify_eq)
  moreover have oid: "oid u' = oid u"
    using assms(3) by (simp add: steam_refreshed_def)
  moreover from assms(1) have "u \<in> set db"
    by (blast dest: find_SomeD)
  then have "u' \<in> set (replace_doc u' db)"
    using oid by (simp add: set_replace_doc)
  ultimately show ?thesis
    using assms(3) by (simp add: length_replace_doc nth_replace_doc) (simp add: steam_refreshed_def)
qed

theorem steam_login_known_updates_in_place_witness:
  "find (\<lambda>v. steamId v = Some (sp_id alice_steam_later)) [user_A, user_B] = Some user_A
   \<and> steam_verify [] 5000 alice_steam_later [user_A, user_B] =
       ((None, Some (steam_refreshed 5000 alice_steam_later user_A)),
        [steam_refreshed 5000 alice_steam_later user_A, user_B])
   \<and> lastLogin (steam_refreshed 5000 alice_steam_later user_A) = 5000
   \<and> discordId (steam_refreshed 5000 alice_steam_later user_A) = None
   \<and> \<not> isFullyAuthenticated (steam_refreshed 5000 alice_steam_later user_A)"
proof -
  have h1: "find (\<lambda>v. steamId v = Some (sp_id alice_steam_later)) [user_A, user_B] = Some user_A"
    by (simp add: user_A_fields alice_steam_later_def)
  have r: "replace_doc (steam_refreshed 5000 alice_steam_later user_A) [user_A, user_B] =
      [steam_refreshed 5000 alice_steam_later user_A, user_B]"
    by (simp add: replace_doc_def steam_refreshed_def user_A_fields user_B_fields)
  from steam_login_known_updates_in_place[OF h1 raised_none_examples(1) refl, of 5000] h1 r
  show ?thesis
    by (simp add: user_A_fields)
qed

section \<open>Discord authentication\<close>

text \<open>
  Claim C1. In a Discord authentication whose external id is the \<open>discordId\<close> of no
  Identity, the merge candidate is an Identity of the collection that has \<open>steamId\<close> set
  and \<open>discordId\<close> unset and that was created at least as recently as every other such
  Identity. So of two Steam-only Identities with different creation times the older one
  is never selected. One candidate is selected: the callback resolves to it, and only
  the document with its \<^verbatim>\<open>_id\<close> is written.
\<close>

theorem discord_login_selects_newest_steam_only:
  assumes "\<forall>u\<in>set db. discordId u \<noteq> Some (dp_id p)"
    and "raised (discord_calls p db) fs = None"
    and "\<exists>u\<in>set db. steam_only u"
  shows "\<exists>c. merge_candidate db = Some c
           \<and> c \<in> set db \<and> steamId c \<noteq> None \<and> discordId c = None
           \<and> (\<forall>u\<in>set db. steamId u \<noteq> None \<and> discordId u = None \<longrightarrow> createdAt u \<le> createdAt c)
           \<and> (\<forall>a\<in>set db. \<forall>b\<in>set db. steam_only a \<and> steam_only b \<and> createdAt a < createdAt b \<longrightarrow> c \<noteq> a)
           \<and> discord_verify fs now p db =
               ((None, Some (discord_merged p c)), replace_doc (discord_merged p c) db)
           \<and> (\<forall>i<length db. oid (db ! i) \<noteq> oid c \<longrightarrow> replace_doc (discord_merged p c) db ! i = db ! i)"
proof -
  from assms(3) obtain c where c: "merge_candidate db = Some c"
    using merge_candidate_None[of db] by (cases "merge_candidate db") auto
  note mc = merge_candidate_Some[OF c]
  have newest: "\<forall>u\<in>set db. steam_only u \<longrightarrow> createdAt u \<le> createdAt c"
    using mc(3) by blast
  from assms(1) have "find (\<lambda>u. discordId u = Some (dp_id p)) db = None"
    by (simp add: find_None)
  with assms(2) c have "discord_verify fs now p db =
      ((None, Some (discord_merged p c)), replace_doc (discord_merged p c) db)"
    by (simp add: discord_verify_eq)
  moreover have "\<forall>i<length db. oid (db ! i) \<noteq> oid c \<longrightarrow> replace_doc (discord_merged p c) db ! i = db ! i"
    by (simp add: nth_replace_doc discord_merged_def)
  moreover have "\<forall>a\<in>set db. \<forall>b\<in>set db. steam_only a \<and> steam_only b \<and> createdAt a < createdAt b \<longrightarrow> c \<noteq> a"
    using newest by fastforce
  ultimately show ?thesis
    using c mc(1,2) newest by (intro exI[of _ c]) (simp add: steam_only_def)
qed

lemma merge_candidate_AB: "merge_candidate [user_A, user_B] = Some user_B"
  by (simp add: merge_candidate_def sort_createdAt_desc_def first_doc_def steam_only_def
      user_A_fields user_B_fields)

lemma merge_candidate_BA: "merge_candidate [user_B, user_A] = Some user_B"
  by (simp add: merge_candidate_def sort_createdAt_desc_def first_doc_def steam_only_def
      user_A_fields user_B_fields)

theorem discord_login_selects_newest_steam_only_witness:
  "steam_only user_A \<and> steam_only user_B \<and> createdAt user_A < createdAt user_B
   \<and> merge_candidate [user_A, user_B] = Some user_B
   \<and> discord_verify [] 3000 alice_discord [user_A, user_B] =
       ((None, Some (discord_merged alice_discord user_B)),
        [user_A, discord_merged alice_discord user_B])"
proof -
  have h1: "\<forall>u\<in>set [user_A, user_B]. discordId u \<noteq> Some (dp_id alice_discord)"
    by (simp add: user_A_fields user_B_fields)
  have so: "steam_only user_A" "steam_only user_B"
    by (simp_all add: steam_only_def user_A_fields user_B_fields)
  then have h3: "\<exists>u\<in>set [user_A, user_B]. steam_only u"
    by simp
  have r: "replace_doc (discord_merged alice_discord user_B) [user_A, user_B] =
      [user_A, discord_merged alice_discord user_B]"
    by (simp add: replace_doc_def discord_merged_def user_A_fields user_B_fields)
  from discord_login_selects_newest_steam_only[OF h1 raised_none_examples(3) h3, of 3000]
    merge_candidate_AB r so
  show ?thesis
    by (auto simp: user_A_fields user_B_fields)
qed

text \<open>
  Claim C2. In a Discord authentication with an unseen external id, a merge candidate
  \<open>c\<close> and no persistence error, the candidate ends as \<open>c'\<close>: the same document
  (\<^verbatim>\<open>_id\<close> and \<open>steamId\<close> kept) with \<open>discordId\<close> set to the external id, the
  Discord name, avatar and email of the profile, and \<open>isFullyAuthenticated\<close> true. It is
  stored in the collection, whose number of documents does not change.
\<close>

theorem discord_login_merges_into_candidate:
  assumes "\<forall>u\<in>set db. discordId u \<noteq> Some (dp_id p)"
    and "merge_candidate db = Some c"
    and "raised (discord_calls p db) fs = None"
    and "c' = discord_merged p c"
  shows "discord_verify fs now p db = ((None, Some c'), replace_doc c' db)
           \<and> oid c' = oid c
           \<and> steamId c' = steamId c
           \<and> discordId c' = Some (dp_id p)
           \<and> discordName c' = Some (dp_username p @ ''#'' @ dp_discriminator p)
           \<and> discordAvatar c' = dp_avatar p
           \<and> discordEmail c' = dp_email p
           \<and> isFullyAuthenticated c'
           \<and> c' \<in> set (replace_doc c' db)
           \<and> length (replace_doc c' db) = length db"
proof -
  from assms(1) have "find (\<lambda>u. discordId u = Some (dp_id p)) db = None"
    by (simp add: find_None)
  with assms(2,3,4) have "discord_verify fs now p db = ((None, Some c'), replace_doc c' db)"
    by (simp add: discord_verify_eq)
  moreover have oid: "oid c' = oid c"
    using assms(4) by (simp add: discord_merged_def)
  moreover have "c' \<in> set (replace_doc c' db)"
    using merge_candidate_Some(1)[OF assms(2)] oid by (simp add: set_replace_doc)
  ultimately show ?thesis
    using assms(4) by (simp add: length_replace_doc) (simp add: discord_merged_def discord_name_of_def)
qed

theorem discord_login_merges_into_candidate_witness:
  "discordId user_A \<noteq> Some (dp_id alice_discord)
   \<and> merge_candidate [user_A] = Some user_A
   \<and> discord_verify [None, None, None] 3000 alice_discord [user_A] =
       ((None, Some (discord_merged alice_discord user_A)), [discord_merged alice_discord user_A])
   \<and> steamId (discord_merged alice_discord user_A) = Some ''S1''
   \<and> discordId (discord_merged alice_discord user_A) = Some ''D1''
   \<and> discordName (discord_merged alice_discord user_A) = Some ''alice#0001''
   \<and> isFullyAuthenticated (discord_merged alice_discord user_A)"
proof -
  have h1: "\<forall>u\<in>set [user_A]. discordId u \<noteq> Some (dp_id alice_discord)"
    by (simp add: user_A_fields)
  have h2: "merge_candidate [user_A] = Some user_A"
    by (simp add: merge_candidate_def sort_createdAt_desc_def first_doc_def steam_only_def
        user_A_fields)
  have r: "replace_doc (discord_merged alice_discord user_A) [user_A] =
      [discord_merged alice_discord user_A]"
    by (simp add: replace_doc_def discord_merged_def)
  from discord_login_merges_into_candidate[OF h1 h2 raised_none_examples(4) refl, of 3000] h1 h2 r
  show ?thesis
    by (simp add: user_A_fields alice_discord_def)
qed

section \<open>Persistence errors\<close>

text \<open>
  Claim C8. When the persistence layer raises an error \<open>e\<close> during a Steam or a Discord
  authentication (the first rejection among the database calls that the callback
  makes), the callback calls \<^verbatim>\<open>done\<close> with \<open>e\<close> and a null identity, and the
  collection is the one it started from. The outcomes after the first rejection play no
  part: nothing is tried again. A rejected call is taken to write nothing.
\<close>

theorem persistence_error_aborts_flow:
  "(raised steam_calls fs = Some e \<longrightarrow>
      steam_verify fs now sp db = ((Some e, None), db))
   \<and> (raised (discord_calls dp db) fs = Some e \<longrightarrow>
      discord_verify fs now dp db = ((Some e, None), db))"
  by (simp add: steam_verify_eq discord_verify_eq)

theorem persistence_error_aborts_flow_witness:
  "raised steam_calls [None, Some (PersistenceError ''write failed'')] =
      Some (PersistenceError ''write failed'')
   \<and> steam_verify [None, Some (PersistenceError ''write failed'')] 5000 alice_steam_later [user_A] =
      ((Some (PersistenceError ''write failed''), None), [user_A])
   \<and> raised (discord_calls alice_discord [user_A]) [None, None, Some (PersistenceError ''write failed'')] =
      Some (PersistenceError ''write failed'')
   \<and> discord_verify [None, None, Some (PersistenceError ''write failed'')] 3000 alice_discord [user_A] =
      ((Some (PersistenceError ''write failed''), None), [user_A])"
proof -
  have h1: "raised steam_calls [None, Some (PersistenceError ''write failed'')] =
      Some (PersistenceError ''write failed'')"
    by (simp add: steam_calls_def raised_Cons)
  have h2: "raised (discord_calls alice_discord [user_A])
      [None, None, Some (PersistenceError ''write failed'')] = Some (PersistenceError ''write failed'')"
    by (simp add: discord_calls_def raised_Cons user_A_fields)
  from persistence_error_aborts_flow[of "[None, Some (PersistenceError ''write failed'')]"
      "PersistenceError ''write failed''" 5000 alice_steam_later "[user_A]" alice_discord]
    persistence_error_aborts_flow[of "[None, None, Some (PersistenceError ''write failed'')]"
      "PersistenceError ''write failed''" 3000 alice_steam "[user_A]" alice_discord]
    h1 h2
  show ?thesis
    by (simp only: simp_thms)
qed

section \<open>What one authentication does to the collection\<close>

lemma steam_created_facts:
  "consistent (steam_created now p db)" "oid (steam_created now p db) = fresh_oid db"
  by (simp_all add: steam_created_def new_User_def consistent_def)

lemma discord_created_facts:
  "consistent (discord_created now p db)" "oid (discord_created now p db) = fresh_oid db"
  by (simp_all add: discord_created_def new_User_def consistent_def)

lemma steam_refreshed_facts:
  "oid (steam_refreshed now p u) = oid u"
  "steamId (steam_refreshed now p u) = steamId u"
  "consistent (steam_refreshed now p u) = consistent u"
  "discordId (steam_refreshed now p u) = discordId u"
  by (simp_all add: steam_refreshed_def consistent_def)

lemma discord_refreshed_facts:
  "oid (discord_refreshed now p u) = oid u"
  "steamId (discord_refreshed now p u) = steamId u"
  "consistent u \<Longrightarrow> consistent (discord_refreshed now p u)"
  by (auto simp: discord_refreshed_def consistent_def truthy_def Let_def split: option.splits)

lemma discord_merged_facts:
  "oid (discord_merged p u) = oid u"
  "steamId (discord_merged p u) = steamId u"
  "steam_only u \<Longrightarrow> consistent (discord_merged p u)"
  by (simp_all add: discord_merged_def consistent_def steam_only_def)

text \<open>
  An authentication leaves the collection as it was, appends one consistent document
  with a fresh \<^verbatim>\<open>_id\<close>, or writes one document back with its \<^verbatim>\<open>_id\<close> and its
  \<open>steamId\<close> unchanged.
\<close>

lemma apply_op_shape:
  "apply_op opn db = db
   \<or> (\<exists>n. apply_op opn db = db @ [n] \<and> consistent n \<and> oid n = fresh_oid db)
   \<or> (\<exists>u u'. u \<in> set db \<and> apply_op opn db = replace_doc u' db \<and> oid u' = oid u
         \<and> steamId u' = steamId u \<and> (consistent u \<longrightarrow> consistent u'))"
proof (cases opn)
  case (SteamLogin fs now p)
  show ?thesis
  proof (cases "raised steam_calls fs")
    case (Some e)
    with SteamLogin show ?thesis by (simp add: steam_verify_eq)
  next
    case None
    show ?thesis
    proof (cases "find (\<lambda>u. steamId u = Some (sp_id p)) db")
      case n: None
      with None SteamLogin show ?thesis
        by (simp add: steam_verify_eq steam_created_facts)
    next
      case (Some u)
      then have "u \<in> set db" by (blast dest: find_SomeD)
      with None Some SteamLogin show ?thesis
        by (intro disjI2 exI[of _ u] exI[of _ "steam_refreshed now p u"])
           (simp add: steam_verify_eq steam_refreshed_facts)
    qed
  qed
next
  case (DiscordLogin fs now p)
  show ?thesis
  proof (cases "raised (discord_calls p db) fs")
    case (Some e)
    with DiscordLogin show ?thesis by (simp add: discord_verify_eq)
  next
    case None
    show ?thesis
    proof (cases "find (\<lambda>u. discordId u = Some (dp_id p)) db")
      case (Some u)
      then have "u \<in> set db" by (blast dest: find_SomeD)
      with None Some DiscordLogin show ?thesis
        by (intro disjI2 exI[of _ u] exI[of _ "discord_refreshed now p u"])
           (simp add: discord_verify_eq discord_refreshed_facts)
    next
      case n: None
      show ?thesis
      proof (cases "merge_candidate db")
        case (Some c)
        note mc = merge_candidate_Some(1,2)[OF Some]
        with None n Some DiscordLogin show ?thesis
          by (intro disjI2 exI[of _ c] exI[of _ "discord_merged p c"])
             (simp add: discord_verify_eq discord_merged_facts)
      next
        case m: None
        with None n DiscordLogin show ?thesis
          by (simp add: discord_verify_eq discord_created_facts)
      qed
    qed
  qed
qed

lemma run_Nil: "run [] db = db"
  by (simp add: run_def)

lemma run_Cons: "run (opn # ops) db = run ops (apply_op opn db)"
  by (simp add: run_def)

lemma run_append: "run (ops1 @ ops2) db = run ops2 (run ops1 db)"
  by (simp add: run_def)

subsection \<open>The flag agrees with the keys\<close>

lemma consistent_apply_op:
  assumes "\<forall>u\<in>set db. consistent u"
  shows "\<forall>u\<in>set (apply_op opn db). consistent u"
  using apply_op_shape[of opn db] assms
  by (auto dest!: in_replace_doc)

lemma consistent_run:
  "\<forall>u\<in>set db. consistent u \<Longrightarrow> \<forall>u\<in>set (run ops db). consistent u"
proof (induction ops arbitrary: db)
  case Nil
  then show ?case by (simp add: run_Nil)
next
  case (Cons opn ops)
  from Cons.prems have "\<forall>u\<in>set (apply_op opn db). consistent u"
    by (rule consistent_apply_op)
  then have "\<forall>u\<in>set (run ops (apply_op opn db)). consistent u"
    by (rule Cons.IH)
  then show ?case
    by (simp only: run_Cons)
qed

text \<open>
  Claim C3. After any finite sequence of Steam and Discord authentications that starts
  from the empty collection, whatever the persistence layer does, every Identity with
  both \<open>steamId\<close> and \<open>discordId\<close> set has \<open>isFullyAuthenticated\<close> true and every
  Identity that lacks one of them has it false.
\<close>

theorem flag_agrees_with_keys_after_any_sequence:
  "\<forall>u\<in>set (run ops []).
      (steamId u \<noteq> None \<and> discordId u \<noteq> None \<longrightarrow> isFullyAuthenticated u)
      \<and> (steamId u = None \<or> discordId u = None \<longrightarrow> \<not> isFullyAuthenticated u)"
proof -
  have "\<forall>u\<in>set (run ops []). consistent u"
    by (rule consistent_run) simp
  then show ?thesis
    by (auto simp: consistent_def)
qed

subsection \<open>Identifiers stay distinct and \<open>steamId\<close> never changes\<close>

lemma same_oid_same_doc:
  "distinct (map oid db) \<Longrightarrow> v \<in> set db \<Longrightarrow> w \<in> set db \<Longrightarrow> oid w = oid v \<Longrightarrow> w = v"
  by (auto simp: distinct_map inj_on_def)

lemma distinct_apply_op:
  assumes "distinct (map oid db)"
  shows "distinct (map oid (apply_op opn db))"
proof -
  have "fresh_oid db \<notin> oid ` set db"
    using fresh_oid_gt[of _ db] by fastforce
  with apply_op_shape[of opn db] assms show ?thesis
    by (auto simp: map_oid_replace_doc)
qed

lemma distinct_run: "distinct (map oid db) \<Longrightarrow> distinct (map oid (run ops db))"
  by (induction ops arbitrary: db) (simp_all add: run_Nil run_Cons distinct_apply_op)

lemma steamId_apply_op:
  assumes d: "distinct (map oid db)" and v: "v \<in> set db"
  shows "(\<exists>w\<in>set (apply_op opn db). oid w = oid v)
       \<and> (\<forall>w\<in>set (apply_op opn db). oid w = oid v \<longrightarrow> steamId w = steamId v)"
proof -
  consider (same) "apply_op opn db = db"
    | (new) n where "apply_op opn db = db @ [n]" "oid n = fresh_oid db"
    | (upd) u u' where "u \<in> set db" "apply_op opn db = replace_doc u' db" "oid u' = oid u"
        "steamId u' = steamId u"
    using apply_op_shape[of opn db] by blast
  then show ?thesis
  proof cases
    case same
    with d v show ?thesis by (auto dest: same_oid_same_doc)
  next
    case new
    with d v fresh_oid_gt[OF v] show ?thesis by (auto dest: same_oid_same_doc)
  next
    case upd
    have ex: "\<exists>w\<in>set (replace_doc u' db). oid w = oid v"
    proof (cases "oid v = oid u'")
      case True
      with v have "u' \<in> set (replace_doc u' db)" by (simp add: set_replace_doc)
      with True show ?thesis by auto
    next
      case False
      with v have "v \<in> set (replace_doc u' db)" by (force simp: replace_doc_def)
      then show ?thesis by auto
    qed
    have "steamId w = steamId v" if w: "w \<in> set (replace_doc u' db)" and o: "oid w = oid v" for w
    proof -
      from in_replace_doc[OF w] show ?thesis
      proof
        assume "w = u'"
        with o upd(3) have "oid u = oid v" by simp
        with d v upd(1) have "u = v" by (auto dest: same_oid_same_doc)
        with \<open>w = u'\<close> upd(4) show ?thesis by simp
      next
        assume "w \<in> set db \<and> oid w \<noteq> oid u'"
        with d v o have "w = v" by (auto dest: same_oid_same_doc)
        then show ?thesis by simp
      qed
    qed
    with ex upd(2) show ?thesis by auto
  qed
qed

lemma steamId_run:
  "distinct (map oid db) \<Longrightarrow> v \<in> set db \<Longrightarrow>
     (\<exists>w\<in>set (run ops db). oid w = oid v)
     \<and> (\<forall>w\<in>set (run ops db). oid w = oid v \<longrightarrow> steamId w = steamId v)"
proof (induction ops arbitrary: db v)
  case Nil
  then show ?case by (auto simp: run_Nil dest: same_oid_same_doc)
next
  case (Cons opn ops)
  from steamId_apply_op[OF Cons.prems, of opn]
  obtain w where w: "w \<in> set (apply_op opn db)" "oid w = oid v"
    and all: "\<forall>w\<in>set (apply_op opn db). oid w = oid v \<longrightarrow> steamId w = steamId v"
    by blast
  from w all have sw: "steamId w = steamId v" by blast
  have d': "distinct (map oid (apply_op opn db))"
    using Cons.prems(1) by (rule distinct_apply_op)
  from Cons.IH[OF d' w(1), of] w(2) sw show ?case
    by (simp add: run_Cons)
qed

text \<open>
  Claim C10. Linking goes one way. Take an Identity \<open>v\<close> without \<open>steamId\<close> in a
  collection reached from the empty one by a sequence of authentications. After any
  further sequence the collection still holds a document with the \<^verbatim>\<open>_id\<close> of \<open>v\<close>,
  and every document with that \<^verbatim>\<open>_id\<close> is still without \<open>steamId\<close>: no
  authentication merges a Steam login into it.
\<close>

theorem discord_only_identity_never_gains_steamId:
  assumes "v \<in> set (run ops1 [])" and "steamId v = None"
  shows "(\<exists>w\<in>set (run (ops1 @ ops2) []). oid w = oid v)
       \<and> (\<forall>w\<in>set (run (ops1 @ ops2) []). oid w = oid v \<longrightarrow> steamId w = None)"
proof -
  have "distinct (map oid (run ops1 []))"
    by (rule distinct_run) simp
  from steamId_run[OF this assms(1), of ops2] assms(2) show ?thesis
    by (simp add: run_append)
qed

lemma profile_ids:
  "sp_id alice_steam = ''S1''" "sp_id alice_steam_later = ''S1''" "sp_id bob_steam = ''S2''"
  "dp_id alice_discord = ''D1''" "dp_id carol_discord = ''D2''"
  by (simp_all add: example_defs)

lemma user_A_linked_fields:
  "oid user_A_linked = 1" "steamId user_A_linked = Some ''S1''"
  "discordId user_A_linked = Some ''D1''" "isFullyAuthenticated user_A_linked"
  by (simp_all add: user_A_linked_def discord_merged_def user_A_fields alice_discord_def)

lemma user_C_fields:
  "oid user_C = 2" "steamId user_C = None"
  "discordId user_C = Some ''D2''" "\<not> isFullyAuthenticated user_C"
  by (simp_all add: user_C_def discord_created_def new_User_def fresh_oid_def
      user_A_linked_fields carol_discord_def)

lemma steam_login_alice: "steam_verify [] 1000 alice_steam [] = ((None, Some user_A), [user_A])"
  by (simp add: steam_verify_eq raised_Nil user_A_def)

lemma discord_login_alice:
  "discord_verify [] 3000 alice_discord [user_A] = ((None, Some user_A_linked), [user_A_linked])"
  by (simp add: discord_verify_eq raised_Nil user_A_fields profile_ids
      merge_candidate_def sort_createdAt_desc_def first_doc_def steam_only_def
      replace_doc_def user_A_linked_def discord_merged_facts(1))

lemma discord_login_carol:
  "discord_verify [] 4000 carol_discord [user_A_linked] =
     ((None, Some user_C), [user_A_linked, user_C])"
  by (simp add: discord_verify_eq raised_Nil user_A_linked_fields carol_discord_def
      merge_candidate_def sort_createdAt_desc_def first_doc_def steam_only_def user_C_def)

lemma run_three_logins: "run three_logins [] = [user_A_linked, user_C]"
  by (simp add: three_logins_def run_def steam_login_alice discord_login_alice
      discord_login_carol)

theorem flag_agrees_with_keys_after_any_sequence_witness:
  "run three_logins [] = [user_A_linked, user_C]
   \<and> steamId user_A_linked \<noteq> None \<and> discordId user_A_linked \<noteq> None
   \<and> isFullyAuthenticated user_A_linked
   \<and> steamId user_C = None \<and> \<not> isFullyAuthenticated user_C"
  using flag_agrees_with_keys_after_any_sequence[of three_logins]
  by (simp add: run_three_logins user_A_linked_fields user_C_fields)

lemma run_later_logins:
  "run later_logins [user_A_linked, user_C] =
     [steam_refreshed 7000 alice_steam_later user_A_linked, user_C,
      steam_created 6000 bob_steam [user_A_linked, user_C]]"
  by (simp add: later_logins_def run_def steam_verify_eq raised_Nil user_A_linked_fields
      user_C_fields bob_steam_def alice_steam_later_def replace_doc_def
      steam_created_def steam_refreshed_def new_User_def fresh_oid_def)

theorem discord_only_identity_never_gains_steamId_witness:
  "user_C \<in> set (run three_logins [])
   \<and> steamId user_C = None
   \<and> run (three_logins @ later_logins) [] ! 1 = user_C
   \<and> steamId (run (three_logins @ later_logins) [] ! 1) = None"
proof -
  have h1: "user_C \<in> set (run three_logins [])"
    by (simp add: run_three_logins)
  have r: "run (three_logins @ later_logins) [] =
     [steam_refreshed 7000 alice_steam_later user_A_linked, user_C,
      steam_created 6000 bob_steam [user_A_linked, user_C]]"
    by (simp add: run_append run_three_logins run_later_logins)
  from discord_only_identity_never_gains_steamId[OF h1 user_C_fields(2), of later_logins] h1 r
  show ?thesis
    by (simp add: user_C_fields)
qed

section \<open>Sessions\<close>

text \<open>
  Claim C7, as the code has it. When the stored identifier \<open>i\<close> is the \<^verbatim>\<open>_id\<close> of no
  Identity, \<open>deserializeUser\<close> calls \<^verbatim>\<open>done\<close> with the error of the lookup if the
  lookup rejects, and otherwise with no error and a null identity. In the second case
  the request goes on without a user, as a request without a session does, and the
  handler of \<^verbatim>\<open>/api/user\<close> answers 401 \<^verbatim>\<open>Not authenticated\<close> to that identity, which
  is its answer to a request without a user. Only a persistence error is signalled
  apart, through the error argument.
\<close>

theorem unresolvable_session_reported_as_no_user:
  assumes "\<forall>u\<in>set db. oid u \<noteq> i"
  shows "deserializeUser fs i db =
           (case raised 1 fs of Some e \<Rightarrow> (Some e, None) | None \<Rightarrow> (None, None))
       \<and> (raised 1 fs = None \<longrightarrow>
            session_user fs (Some i) db = session_user fs' None db
            \<and> api_user (snd (deserializeUser fs i db)) = Json_error 401 ''Not authenticated'')
       \<and> api_user None = Json_error 401 ''Not authenticated''"
proof -
  from assms have "find (\<lambda>u. oid u = i) db = None"
    by (simp add: find_None)
  then show ?thesis
    by (cases fs rule: faults_shape)
       (simp_all add: deserializeUser_def session_user_def findById_def db_call_def
          api_user_def raised_Nil raised_Cons raised_0)
qed

theorem unresolvable_session_reported_as_no_user_witness:
  "oid user_A \<noteq> 7
   \<and> deserializeUser [None] 7 [user_A] = (None, None)
   \<and> session_user [None] (Some 7) [user_A] = session_user [] None [user_A]
   \<and> deserializeUser [Some (PersistenceError ''read failed'')] 7 [user_A] =
       (Some (PersistenceError ''read failed''), None)"
proof -
  have h: "\<forall>u\<in>set [user_A]. oid u \<noteq> 7"
    by (simp add: user_A_fields)
  from unresolvable_session_reported_as_no_user[OF h, of "[None]" "[]"]
    unresolvable_session_reported_as_no_user[OF h, of "[Some (PersistenceError ''read failed'')]" "[]"]
  show ?thesis
    by (simp add: raised_Cons raised_0 user_A_fields)
qed

text \<open>
  Claim C7 as stated asks for a signal distinct from the one of a request that is not
  logged in. With the collection \<open>[user_A]\<close> and the stored identifier 7, which no
  document has, there is none: \<^verbatim>\<open>done(null, null)\<close>, the same \<^verbatim>\<open>req.user\<close> as without
  a session, and the same answer of \<^verbatim>\<open>/api/user\<close>.
\<close>

theorem unresolvable_session_not_distinct_counterexample:
  "oid user_A \<noteq> 7
   \<and> deserializeUser [] 7 [user_A] = (None, None)
   \<and> \<not> (session_user [] (Some 7) [user_A] \<noteq> session_user [] None [user_A])
   \<and> \<not> (api_user (snd (deserializeUser [] 7 [user_A])) \<noteq> api_user None)"
  by (simp add: deserializeUser_def session_user_def findById_def db_call_def user_A_fields)

section \<open>Fields that an authentication leaves stale\<close>

text \<open>What the two branches for an existing Identity leave as it was, for any input.\<close>

lemma steam_refreshed_keeps_profile_url:
  "steamProfileUrl (steam_refreshed now p u) = steamProfileUrl u"
  by (simp add: steam_refreshed_def)

lemma discord_merged_keeps_lastLogin:
  "lastLogin (discord_merged p c) = lastLogin c"
  by (simp add: discord_merged_def)

lemma steam_relogin_alice:
  "steam_verify [] now p [user_A] =
     (if sp_id p = ''S1''
      then ((None, Some (steam_refreshed now p user_A)), [steam_refreshed now p user_A])
      else ((None, Some (steam_created now p [user_A])), [user_A, steam_created now p [user_A]]))"
  by (simp add: steam_verify_eq raised_Nil user_A_fields replace_doc_def steam_refreshed_facts(1))

lemma discord_login_after_relogin:
  "discord_verify [] 3000 alice_discord [steam_refreshed 2000 alice_steam user_A] =
     ((None, Some (discord_merged alice_discord (steam_refreshed 2000 alice_steam user_A))),
      [discord_merged alice_discord (steam_refreshed 2000 alice_steam user_A)])"
  by (simp add: discord_verify_eq raised_Nil user_A_fields steam_refreshed_facts(1,2,4)
      merge_candidate_def sort_createdAt_desc_def first_doc_def steam_only_def replace_doc_def
      discord_merged_facts(1))

text \<open>
  Claim C5 fails on the code for the Steam profile URL. Alice logs in through Steam at
  time 1000 with the profile URL \<^verbatim>\<open>id/alice\<close>, which creates \<open>user_A\<close>, and again at
  time 5000 with a new name, avatar and profile URL \<^verbatim>\<open>id/alice2\<close>. The second login
  resolves to her Identity and overwrites \<open>steamName\<close> and \<open>steamAvatar\<close>, but
  \<open>steamProfileUrl\<close> keeps the value of the first login: the \<^verbatim>\<open>else\<close> branch of the
  callback has no assignment to it.
\<close>

theorem steam_relogin_keeps_old_profile_url:
  "steam_verify [] 1000 alice_steam [] = ((None, Some user_A), [user_A])
   \<and> steam_verify [] 5000 alice_steam_later [user_A] =
       ((None, Some (steam_refreshed 5000 alice_steam_later user_A)),
        [steam_refreshed 5000 alice_steam_later user_A])
   \<and> sp_profileurl alice_steam_later = ''id/alice2''
   \<and> steamProfileUrl (steam_refreshed 5000 alice_steam_later user_A) = Some ''id/alice''
   \<and> steamName (steam_refreshed 5000 alice_steam_later user_A) = Some ''alice2''
   \<and> steamAvatar (steam_refreshed 5000 alice_steam_later user_A) = Some ''a2.jpg''"
  by (simp add: steam_login_alice steam_relogin_alice profile_ids user_A_fields
      steam_refreshed_def steam_avatar_of_def alice_steam_later_def)

text \<open>
  Claim C6 fails on the code for the merge path. Alice logs in through Steam at times
  1000 and 2000; the second login sets \<open>lastLogin\<close> to 2000. Her Discord login at time
  3000 has an unseen external id and resolves to that Identity as the merge candidate.
  The Identity is linked, and its \<open>lastLogin\<close> is still 2000: the branch of the merge
  has no assignment to \<open>lastLogin\<close>, unlike the two branches for an Identity found by
  its own key.
\<close>

theorem discord_merge_keeps_old_lastLogin:
  "steam_verify [] 1000 alice_steam [] = ((None, Some user_A), [user_A])
   \<and> steam_verify [] 2000 alice_steam [user_A] =
       ((None, Some (steam_refreshed 2000 alice_steam user_A)),
        [steam_refreshed 2000 alice_steam user_A])
   \<and> discord_verify [] 3000 alice_discord [steam_refreshed 2000 alice_steam user_A] =
       ((None, Some (discord_merged alice_discord (steam_refreshed 2000 alice_steam user_A))),
        [discord_merged alice_discord (steam_refreshed 2000 alice_steam user_A)])
   \<and> lastLogin (discord_merged alice_discord (steam_refreshed 2000 alice_steam user_A)) = 2000
   \<and> isFullyAuthenticated (discord_merged alice_discord (steam_refreshed 2000 alice_steam user_A))"
  by (simp add: steam_login_alice steam_relogin_alice discord_login_after_relogin profile_ids)
     (simp add: discord_merged_def steam_refreshed_def)

end
